theory Spec2Isabelle
  imports Main "HOL-Library.AList" "HOL-Library.Multiset"
begin

section \<open>Data model\<close>

text \<open>
  The samplers of \<^verbatim>\<open>src/samplers/base.py\<close> and \<^verbatim>\<open>src/samplers/random.py\<close> turn rows of a
  puzzle table into examples. Exceptions are values: a function that can raise returns
  \<open>pyerror + 'a\<close>, with \<open>Inl\<close> the exception.
\<close>

datatype pyerror = ValueError string | KeyError string | IndexError string

text \<open>
  One row of the puzzle table (a \<^verbatim>\<open>pd.Series\<close>), with the columns the samplers read. The
  rows of the single-move table carry three more columns.
\<close>

record puzzle_row =
  PuzzleId :: string
  FEN :: string
  Moves :: string
  Rating :: int
  RatingDeviation :: int
  Popularity :: int
  Themes :: string

record single_row = puzzle_row +
  col_puzzle_fen :: string
  col_expected_move :: string
  col_opponent_move :: string

text \<open>
  The \<^verbatim>\<open>metadata\<close> dictionary of an example. The two code paths fill different keys; a key
  that a path does not set is \<open>None\<close>.
\<close>

record meta_dict =
  rating :: int
  popularity :: int
  rating_deviation :: int
  themes :: string
  moves :: "string list option"
  initial_fen :: string
  control_group :: "string option"
  opponent_move :: "string option"

text \<open>
  Keys of \<^verbatim>\<open>possible_moves\<close>: Python keeps an \<^verbatim>\<open>int\<close> key and a \<^verbatim>\<open>str\<close> key apart, so the
  model does as well. A dictionary is an association list in insertion order.
\<close>

datatype pykey = IntKey nat | StrKey string

record example =
  puzzle :: string
  possible_moves :: "(pykey \<times> string) list"
  expected_move :: string
  puzzle_id :: string
  metadata :: meta_dict
  move_index :: "nat option"
  inputs :: "string list"

section \<open>The position engine\<close>

text \<open>
  The chess rules come from the \<^verbatim>\<open>chess\<close> library, which is not part of the repository.
  The code uses five of its operations, and the model takes them as a parameter:
  \<^verbatim>\<open>chess.Board(fen)\<close>, \<^verbatim>\<open>board.legal_moves\<close>, \<^verbatim>\<open>move.uci()\<close>, \<^verbatim>\<open>board.push_uci(s)\<close> (here
  returning the advanced board instead of mutating it) and \<^verbatim>\<open>board.fen()\<close>.
\<close>

record ('b, 'm) engine =
  Board :: "string \<Rightarrow> pyerror + 'b"
  legal_moves :: "'b \<Rightarrow> 'm list"
  uci :: "'m \<Rightarrow> string"
  push_uci :: "'b \<Rightarrow> string \<Rightarrow> pyerror + 'b"
  fen :: "'b \<Rightarrow> string"

definition legal_moves_uci :: "('b, 'm) engine \<Rightarrow> 'b \<Rightarrow> string list" where
  "legal_moves_uci E board = map (uci E) (legal_moves E board)"

section \<open>Python built-ins\<close>

text \<open>
  \<^verbatim>\<open>str.split()\<close> without arguments: split at runs of whitespace, no empty strings in the
  result. Characters are the code points below 256.
\<close>

definition isspace :: "char \<Rightarrow> bool" where
  "isspace c = (c \<in> set [CHR 0x09, CHR 0x0A, CHR 0x0B, CHR 0x0C, CHR 0x0D,
                          CHR 0x1C, CHR 0x1D, CHR 0x1E, CHR 0x1F, CHR 0x20,
                          CHR 0x85, CHR 0xA0])"

fun split_from :: "string \<Rightarrow> string \<Rightarrow> string list" where
  "split_from w [] = (if w = [] then [] else [w])"
| "split_from w (c # cs) =
     (if isspace c then (if w = [] then split_from [] cs else w # split_from [] cs)
      else split_from (w @ [c]) cs)"

definition str_split :: "string \<Rightarrow> string list" where
  "str_split s = split_from [] s"

text \<open>\<^verbatim>\<open>str(i)\<close> for a non-negative integer: its decimal digits.\<close>

definition digit :: "nat \<Rightarrow> char" where
  "digit d = ''0123456789'' ! d"

fun str :: "nat \<Rightarrow> string" where
  "str n = (if n < 10 then [digit n] else str (n div 10) @ [digit (n mod 10)])"

declare str.simps [simp del]

text \<open>
  A dictionary comprehension stores its pairs one after the other: a key seen before keeps
  its place and takes the new value.
\<close>

definition py_dict :: "('k \<times> 'v) list \<Rightarrow> ('k \<times> 'v) list" where
  "py_dict ps = foldl (\<lambda>d (k, v). AList.update k v d) [] ps"

text \<open>The truth value of an optional string: \<^verbatim>\<open>None\<close> and \<^verbatim>\<open>""\<close> are false.\<close>

fun truthy :: "string option \<Rightarrow> bool" where
  "truthy None = False"
| "truthy (Some s) = (s \<noteq> [])"

section \<open>The example builder (base.py)\<close>

definition builder_metadata :: "'a puzzle_row_scheme \<Rightarrow> string list \<Rightarrow> string option \<Rightarrow> meta_dict" where
  "builder_metadata p mvs cg =
     (let md = \<lparr> rating = Rating p, popularity = Popularity p,
                 rating_deviation = RatingDeviation p, themes = Themes p,
                 moves = Some mvs, initial_fen = FEN p,
                 control_group = None, opponent_move = None \<rparr>
      in if truthy cg then md\<lparr>control_group := cg\<rparr> else md)"

definition builder_example ::
  "('b, 'm) engine \<Rightarrow> 'a puzzle_row_scheme \<Rightarrow> meta_dict \<Rightarrow> 'b \<Rightarrow> nat \<Rightarrow> string \<Rightarrow> example" where
  "builder_example E p md board move_idx mv =
     \<lparr> puzzle = fen E board,
       possible_moves = py_dict (map (\<lambda>(i, s). (IntKey i, s)) (enumerate 0 (legal_moves_uci E board))),
       expected_move = mv,
       puzzle_id = PuzzleId p,
       metadata = md,
       move_index = Some move_idx,
       inputs = [''puzzle'', ''possible_moves''] \<rparr>"

text \<open>
  The \<^verbatim>\<open>for move_idx, expected_move in enumerate(moves)\<close> loop. \<open>n\<close> is \<^verbatim>\<open>len(moves)\<close>; the
  board is advanced after every move but the last; an exception of \<^verbatim>\<open>push_uci\<close> leaves the
  function and the examples built so far are lost.
\<close>

fun examples_loop ::
  "('b, 'm) engine \<Rightarrow> 'a puzzle_row_scheme \<Rightarrow> meta_dict \<Rightarrow> nat \<Rightarrow> 'b \<Rightarrow> nat \<Rightarrow> string list
     \<Rightarrow> pyerror + example list" where
  "examples_loop E p md n board move_idx [] = Inr []"
| "examples_loop E p md n board move_idx (mv # rest) =
     (let ex = builder_example E p md board move_idx mv in
      if int move_idx < int n - 1 then
        (case push_uci E board mv of
           Inl e \<Rightarrow> Inl e
         | Inr board' \<Rightarrow>
             (case examples_loop E p md n board' (Suc move_idx) rest of
                Inl e \<Rightarrow> Inl e
              | Inr exs \<Rightarrow> Inr (ex # exs)))
      else
        (case examples_loop E p md n board (Suc move_idx) rest of
           Inl e \<Rightarrow> Inl e
         | Inr exs \<Rightarrow> Inr (ex # exs)))"

text \<open>
  \<^verbatim>\<open>_create_dspy_example\<close>: \<open>Inr None\<close> is \<^verbatim>\<open>return None\<close>, \<open>Inr (Some exs)\<close> the list of
  examples, \<open>Inl e\<close> an exception.
\<close>

definition create_dspy_example ::
  "('b, 'm) engine \<Rightarrow> 'a puzzle_row_scheme \<Rightarrow> string option \<Rightarrow> pyerror + example list option" where
  "create_dspy_example E p cg =
     (let mvs = str_split (Moves p) in
      if mvs = [] then Inr None
      else
        let md = builder_metadata p mvs cg in
        case Board E (FEN p) of
          Inl e \<Rightarrow> Inl e
        | Inr board \<Rightarrow>
            (case examples_loop E p md (length mvs) board 0 mvs of
               Inl e \<Rightarrow> Inl e
             | Inr exs \<Rightarrow> Inr (Some exs)))"

section \<open>The dataset assembler (base.py)\<close>

text \<open>
  A \<^verbatim>\<open>DataFrame\<close> is the list of its rows, each with its index label, which is what
  \<^verbatim>\<open>iterrows\<close> yields. \<^verbatim>\<open>iloc\<close> reads a position of a series, counting from the end when
  the position is negative, and raises outside the series.
\<close>

type_synonym 'r frame = "(int \<times> 'r) list"

definition iloc :: "'a list \<Rightarrow> int \<Rightarrow> pyerror + 'a" where
  "iloc xs i =
     (if 0 \<le> i \<and> i < int (length xs) then Inr (xs ! nat i)
      else if i < 0 \<and> - int (length xs) \<le> i then Inr (xs ! nat (int (length xs) + i))
      else Inl (IndexError ''single positional indexer is out-of-bounds''))"

text \<open>
  \<^verbatim>\<open>_create_examples_from_df\<close>. There is no \<^verbatim>\<open>try\<close> in it: an exception of the builder
  leaves the loop and the function.
\<close>

fun create_examples_from_df ::
  "('b, 'm) engine \<Rightarrow> 'a puzzle_row_scheme frame \<Rightarrow> string option list option
     \<Rightarrow> pyerror + example list" where
  "create_examples_from_df E [] control_groups = Inr []"
| "create_examples_from_df E ((idx, p) # rest) control_groups =
     (case (case control_groups of
              None \<Rightarrow> Inr None
            | Some labels \<Rightarrow> iloc labels idx) of
        Inl e \<Rightarrow> Inl e
      | Inr cg \<Rightarrow>
          (case create_dspy_example E p cg of
             Inl e \<Rightarrow> Inl e
           | Inr puzzle_examples \<Rightarrow>
               (case create_examples_from_df E rest control_groups of
                  Inl e \<Rightarrow> Inl e
                | Inr all_examples \<Rightarrow>
                    Inr ((case puzzle_examples of
                            None \<Rightarrow> []
                          | Some exs \<Rightarrow> if exs \<noteq> [] then exs else []) @ all_examples))))"

section \<open>The random sampler (random.py)\<close>

text \<open>
  Random numbers come from numpy, through pandas. The model takes the generator as a
  parameter: \<open>seed_rng\<close> makes a generator state from a seed (numpy refuses seeds outside
  \<open>0 .. 2^32 - 1\<close>), \<open>permutation\<close> draws a permutation of \<open>0 ..< n\<close> and returns the
  next state. \<open>'g\<close> is the type of generator states; the process has one global state.
\<close>

record 'g rng_lib =
  seed_rng :: "int \<Rightarrow> pyerror + 'g"
  permutation :: "'g \<Rightarrow> nat \<Rightarrow> nat list \<times> 'g"

record sampler =
  random_state :: int

text \<open>\<^verbatim>\<open>BaseSampler.__init__\<close> stores the seed and reseeds the global generator.\<close>

definition BaseSampler_init :: "'g rng_lib \<Rightarrow> int \<Rightarrow> 'g \<Rightarrow> pyerror + (sampler \<times> 'g)" where
  "BaseSampler_init R seed g =
     (case seed_rng R seed of
        Inl e \<Rightarrow> Inl e
      | Inr g' \<Rightarrow> Inr (\<lparr> random_state = seed \<rparr>, g'))"

definition take_rows :: "'r frame \<Rightarrow> nat list \<Rightarrow> pyerror + 'r frame" where
  "take_rows df locs =
     (if list_all (\<lambda>i. i < length df) locs then Inr (map (\<lambda>i. df ! i) locs)
      else Inl (IndexError ''indices are out-of-bounds''))"

text \<open>
  \<^verbatim>\<open>df.sample(n=n, random_state=rs)\<close> draws without replacement: the first \<open>n\<close> entries of
  a permutation of the row positions. With an integer \<open>rs\<close> the permutation comes from a
  generator made from that seed and the global state \<open>g\<close> is not touched; with
  \<open>rs = None\<close> it comes from the global state. pandas makes the generator first, then
  checks \<open>n\<close>.
\<close>

definition df_sample ::
  "'g rng_lib \<Rightarrow> 'r frame \<Rightarrow> int \<Rightarrow> int option \<Rightarrow> 'g \<Rightarrow> (pyerror + 'r frame) \<times> 'g" where
  "df_sample R df n rs g =
     (case (case rs of None \<Rightarrow> Inr None | Some seed \<Rightarrow> map_sum id Some (seed_rng R seed)) of
        Inl e \<Rightarrow> (Inl e, g)
      | Inr own \<Rightarrow>
          if n < 0 then
            (Inl (ValueError ''A negative number of rows requested. Please provide `n` >= 0.''), g)
          else if int (length df) < n then
            (Inl (ValueError ''Cannot take a larger sample than population when replace=False''), g)
          else
            (case own of
               None \<Rightarrow>
                 (let (perm, g') = permutation R g (length df)
                  in (take_rows df (take (nat n) perm), g'))
             | Some st \<Rightarrow>
                 (take_rows df (take (nat n) (fst (permutation R st (length df)))), g)))"

text \<open>Line 26 of random.py, the selection \<^verbatim>\<open>sampled_df\<close>.\<close>

definition sampled_df ::
  "'g rng_lib \<Rightarrow> sampler \<Rightarrow> 'r frame \<Rightarrow> int \<Rightarrow> 'g \<Rightarrow> (pyerror + 'r frame) \<times> 'g" where
  "sampled_df R self df sample_size g =
     df_sample R df (min sample_size (int (length df))) (Some (random_state self)) g"

definition sampler_example :: "'a single_row_scheme \<Rightarrow> (pykey \<times> string) list \<Rightarrow> example" where
  "sampler_example row legal =
     \<lparr> puzzle = col_puzzle_fen row,
       possible_moves = legal,
       expected_move = col_expected_move row,
       puzzle_id = PuzzleId row,
       metadata = \<lparr> rating = Rating row, popularity = Popularity row,
                    rating_deviation = RatingDeviation row, themes = Themes row,
                    moves = None, initial_fen = FEN row,
                    control_group = None, opponent_move = Some (col_opponent_move row) \<rparr>,
       move_index = None,
       inputs = [''puzzle'', ''possible_moves''] \<rparr>"

text \<open>
  The loop over the selected rows. An exception inside the \<^verbatim>\<open>try\<close> (here: the position
  string does not parse) is caught and the row is skipped; so is a row whose position has no
  legal move. The message printed on an exception is not modelled.
\<close>

fun sample_rows_loop :: "('b, 'm) engine \<Rightarrow> 'a single_row_scheme frame \<Rightarrow> example list" where
  "sample_rows_loop E [] = []"
| "sample_rows_loop E ((idx, row) # rest) =
     (case Board E (col_puzzle_fen row) of
        Inl e \<Rightarrow> sample_rows_loop E rest
      | Inr board \<Rightarrow>
          (let legal = py_dict (map (\<lambda>(i, mv). (StrKey (str i), uci E mv))
                                    (enumerate 0 (legal_moves E board)))
           in if legal = [] then sample_rows_loop E rest
              else sampler_example row legal # sample_rows_loop E rest))"

definition create_sample ::
  "'g rng_lib \<Rightarrow> ('b, 'm) engine \<Rightarrow> sampler \<Rightarrow> 'a single_row_scheme frame \<Rightarrow> int \<Rightarrow> 'g
     \<Rightarrow> (pyerror + example list) \<times> 'g" where
  "create_sample R E self df sample_size g =
     (case sampled_df R self df sample_size g of
        (Inl e, g') \<Rightarrow> (Inl e, g')
      | (Inr rows, g') \<Rightarrow> (Inr (sample_rows_loop E rows), g'))"

section \<open>The distribution analyzer (base.py and random.py)\<close>

text \<open>
  \<^verbatim>\<open>pd.DataFrame(list_of_dicts)\<close> has one column for every key that occurs, in the order of
  first occurrence, and \<open>NaN\<close> where a dictionary lacks the key; from the empty list it has
  no column at all. Reading a column that is not there raises \<^verbatim>\<open>KeyError\<close>.
\<close>

datatype cell = Num int | Str string | NaN

type_synonym table = "(string \<times> cell list) list"

definition DataFrame :: "(string \<times> cell) list list \<Rightarrow> table" where
  "DataFrame data =
     map (\<lambda>k. (k, map (\<lambda>d. case map_of d k of Some v \<Rightarrow> v | None \<Rightarrow> NaN) data))
         (rev (remdups (rev (concat (map (map fst) data)))))"

definition getitem :: "table \<Rightarrow> string \<Rightarrow> pyerror + cell list" where
  "getitem t k = (case map_of t k of None \<Rightarrow> Inl (KeyError k) | Some col \<Rightarrow> Inr col)"

record 's comparison =
  population :: 's
  sample :: 's

text \<open>
  \<^verbatim>\<open>Series.describe()\<close> (count, mean, std, min, quartiles, max, in floating point) is
  pandas' and is the parameter \<open>describe\<close>.
\<close>

definition analyze_distribution ::
  "(cell list \<Rightarrow> 's) \<Rightarrow> 'a puzzle_row_scheme frame \<Rightarrow> example list
     \<Rightarrow> pyerror + (string \<times> 's comparison) list" where
  "analyze_distribution describe population_df sampled_examples =
     (let sample_data = map (\<lambda>ex. [(''rating'', Num (rating (metadata ex))),
                                    (''popularity'', Num (popularity (metadata ex))),
                                    (''rating_deviation'', Num (rating_deviation (metadata ex))),
                                    (''themes'', Str (themes (metadata ex)))]) sampled_examples;
          sample_df = DataFrame sample_data;
          pop_rating_stats = describe (map (\<lambda>(idx, p). Num (Rating p)) population_df)
      in case getitem sample_df ''rating'' of
           Inl e \<Rightarrow> Inl e
         | Inr rating_col \<Rightarrow>
             (let rating_stats = \<lparr> population = pop_rating_stats, sample = describe rating_col \<rparr>;
                  pop_popularity_stats = describe (map (\<lambda>(idx, p). Num (Popularity p)) population_df)
              in case getitem sample_df ''popularity'' of
                   Inl e \<Rightarrow> Inl e
                 | Inr popularity_col \<Rightarrow>
                     Inr [(''rating_stats'', rating_stats),
                          (''popularity_stats'',
                           \<lparr> population = pop_popularity_stats, sample = describe popularity_col \<rparr>)]))"

text \<open>The module-level copy in random.py; its sample rows have no \<^verbatim>\<open>themes\<close> key.\<close>

definition analyze_sample_distribution ::
  "(cell list \<Rightarrow> 's) \<Rightarrow> 'a puzzle_row_scheme frame \<Rightarrow> example list
     \<Rightarrow> pyerror + (string \<times> 's comparison) list" where
  "analyze_sample_distribution describe df sampled_examples =
     (let sample_data = map (\<lambda>ex. [(''rating'', Num (rating (metadata ex))),
                                    (''popularity'', Num (popularity (metadata ex))),
                                    (''rating_deviation'', Num (rating_deviation (metadata ex)))])
                            sampled_examples;
          sample_df = DataFrame sample_data;
          pop_rating_stats = describe (map (\<lambda>(idx, p). Num (Rating p)) df)
      in case getitem sample_df ''rating'' of
           Inl e \<Rightarrow> Inl e
         | Inr rating_col \<Rightarrow>
             (let rating_stats = \<lparr> population = pop_rating_stats, sample = describe rating_col \<rparr>;
                  pop_popularity_stats = describe (map (\<lambda>(idx, p). Num (Popularity p)) df)
              in case getitem sample_df ''popularity'' of
                   Inl e \<Rightarrow> Inl e
                 | Inr popularity_col \<Rightarrow>
                     Inr [(''rating_stats'', rating_stats),
                          (''popularity_stats'',
                           \<lparr> population = pop_popularity_stats, sample = describe popularity_col \<rparr>)]))"

section \<open>Notions of the specification\<close>

text \<open>
  A line of moves is legal from a board when every move is among the legal moves of the
  position in which it is to be played, and every move that is played (all but the last) is
  accepted by \<^verbatim>\<open>push_uci\<close>.
\<close>

fun legal_line :: "('b, 'm) engine \<Rightarrow> 'b \<Rightarrow> string list \<Rightarrow> bool" where
  "legal_line E b [] = True"
| "legal_line E b [mv] = (mv \<in> set (legal_moves_uci E b))"
| "legal_line E b (mv # mv' # rest) =
     (mv \<in> set (legal_moves_uci E b) \<and>
      (case push_uci E b mv of Inl e \<Rightarrow> False | Inr b' \<Rightarrow> legal_line E b' (mv' # rest)))"

text \<open>
  Replaying a line from a board: the position string before each move and after the last;
  the replay stops at a move that \<^verbatim>\<open>push_uci\<close> refuses.
\<close>

fun replay :: "('b, 'm) engine \<Rightarrow> 'b \<Rightarrow> string list \<Rightarrow> string list" where
  "replay E b [] = [fen E b]"
| "replay E b (mv # rest) =
     fen E b # (case push_uci E b mv of Inl e \<Rightarrow> [] | Inr b' \<Rightarrow> replay E b' rest)"

text \<open>A report pairs the summaries \<open>a\<close> (population) and \<open>b\<close> (sample) under some key.\<close>

definition pairs_summaries :: "(string \<times> 's comparison) list \<Rightarrow> 's \<Rightarrow> 's \<Rightarrow> bool" where
  "pairs_summaries report a b = list_ex (\<lambda>(k, c). population c = a \<and> sample c = b) report"

section \<open>Instances for running the definitions\<close>

text \<open>
  A four-position table of the chess library's answers: the initial position, the position
  after 1. e4 (given with or without the en-passant square \<open>e3\<close>; the library writes it
  without, as no pawn can capture there), the final position of the fool's mate, where the
  side to move has no legal move, and \<open>Elsewhere\<close> for every position the table does not
  follow. A string that is none of the four position strings counts as unparsable.
\<close>

datatype book_board = Initial | After_e4 | Fools_mate | Elsewhere

definition startpos_fen :: string where
  "startpos_fen = ''rnbqkbnr/pppppppp/8/8/8/8/PPPPPPPP/RNBQKBNR w KQkq - 0 1''"

definition e4_fen_ep :: string where
  "e4_fen_ep = ''rnbqkbnr/pppppppp/8/8/4P3/8/PPPP1PPP/RNBQKBNR b KQkq e3 0 1''"

definition e4_fen :: string where
  "e4_fen = ''rnbqkbnr/pppppppp/8/8/4P3/8/PPPP1PPP/RNBQKBNR b KQkq - 0 1''"

definition mate_fen :: string where
  "mate_fen = ''rnb1kbnr/pppp1ppp/8/4p3/6Pq/5P2/PPPPP2P/RNBQKBNR w KQkq - 1 3''"

fun book_legal :: "book_board \<Rightarrow> string list" where
  "book_legal Initial =
     [''g1h3'', ''g1f3'', ''b1c3'', ''b1a3'', ''h2h3'', ''g2g3'', ''f2f3'', ''e2e3'', ''d2d3'',
      ''c2c3'', ''b2b3'', ''a2a3'', ''h2h4'', ''g2g4'', ''f2f4'', ''e2e4'', ''d2d4'', ''c2c4'',
      ''b2b4'', ''a2a4'']"
| "book_legal After_e4 =
     [''g8h6'', ''g8f6'', ''b8c6'', ''b8a6'', ''h7h6'', ''g7g6'', ''f7f6'', ''e7e6'', ''d7d6'',
      ''c7c6'', ''b7b6'', ''a7a6'', ''h7h5'', ''g7g5'', ''f7f5'', ''e7e5'', ''d7d5'', ''c7c5'',
      ''b7b5'', ''a7a5'']"
| "book_legal Fools_mate = []"
| "book_legal Elsewhere = []"

definition book_Board :: "string \<Rightarrow> pyerror + book_board" where
  "book_Board s =
     (if s = startpos_fen then Inr Initial
      else if s = e4_fen \<or> s = e4_fen_ep then Inr After_e4
      else if s = mate_fen then Inr Fools_mate
      else Inl (ValueError ''invalid fen''))"

definition book_push :: "book_board \<Rightarrow> string \<Rightarrow> pyerror + book_board" where
  "book_push b mv =
     (if mv \<in> set (book_legal b) then
        (if b = Initial \<and> mv = ''e2e4'' then Inr After_e4 else Inr Elsewhere)
      else Inl (ValueError ''illegal uci''))"

fun book_fen :: "book_board \<Rightarrow> string" where
  "book_fen Initial = startpos_fen"
| "book_fen After_e4 = e4_fen"
| "book_fen Fools_mate = mate_fen"
| "book_fen Elsewhere = ''?''"

definition book :: "(book_board, string) engine" where
  "book = \<lparr> Board = book_Board, legal_moves = book_legal, uci = (\<lambda>s. s),
            push_uci = book_push, fen = book_fen \<rparr>"

text \<open>A small generator: the state is a counter, the permutation a rotation by it.\<close>

definition counter_rng :: "nat rng_lib" where
  "counter_rng = \<lparr> seed_rng = (\<lambda>s. if 0 \<le> s \<and> s < 2 ^ 32 then Inr (nat s)
                                    else Inl (ValueError ''Seed must be between 0 and 2**32 - 1'')),
                  permutation = (\<lambda>g n. (rotate g [0..<n], Suc g)) \<rparr>"

definition row_of :: "string \<Rightarrow> string \<Rightarrow> string \<Rightarrow> puzzle_row" where
  "row_of ident position mvs =
     \<lparr> PuzzleId = ident, FEN = position, Moves = mvs, Rating = 1500, RatingDeviation = 75,
       Popularity = 90, Themes = ''opening'' \<rparr>"

definition single_of :: "string \<Rightarrow> string \<Rightarrow> string \<Rightarrow> single_row" where
  "single_of ident position mv =
     \<lparr> PuzzleId = ident, FEN = startpos_fen, Moves = ''e2e4 '' @ mv, Rating = 1500,
       RatingDeviation = 75, Popularity = 90, Themes = ''opening'',
       col_puzzle_fen = position, col_expected_move = mv, col_opponent_move = ''e2e4'' \<rparr>"

definition single_rows :: "single_row frame" where
  "single_rows = [(0, single_of ''a'' e4_fen ''e7e5''), (1, single_of ''b'' mate_fen ''h2h3''),
                  (2, single_of ''c'' ''no position'' ''e7e5'')]"

definition book_population :: "puzzle_row frame" where
  "book_population = [(0, row_of ''p1'' startpos_fen ''e2e4 e7e5''), (1, row_of ''p2'' e4_fen_ep ''e7e5'')]"

definition book_examples :: "example list" where
  "book_examples = (case create_examples_from_df book [(0, row_of ''p1'' startpos_fen ''e2e4 e7e5'')] None of
                      Inr exs \<Rightarrow> exs | Inl e \<Rightarrow> [])"

section \<open>Auxiliary functions of the proofs\<close>

text \<open>Reading a decimal string back, to show that \<open>str\<close> is injective.\<close>

definition digit_val :: "char \<Rightarrow> nat" where
  "digit_val c = length (takeWhile (\<lambda>d. d \<noteq> c) ''0123456789'')"

definition num_of :: "string \<Rightarrow> nat" where
  "num_of s = foldl (\<lambda>a c. 10 * a + digit_val c) 0 s"

section \<open>Dictionaries and decimal strings\<close>

lemma update_fresh: "k \<notin> fst ` set d \<Longrightarrow> AList.update k v d = d @ [(k, v)]"
  by (induction d) auto

lemma foldl_update_distinct:
  "distinct (map fst (d @ ps)) \<Longrightarrow> foldl (\<lambda>d (k, v). AList.update k v d) d ps = d @ ps"
proof (induction ps arbitrary: d)
  case Nil
  then show ?case by simp
next
  case (Cons a ps)
  obtain k v where a: "a = (k, v)" by (cases a)
  from Cons.prems have fresh: "k \<notin> fst ` set d" by (auto simp: a)
  from Cons.prems have "distinct (map fst ((d @ [(k, v)]) @ ps))" by (auto simp: a)
  from Cons.IH [OF this] show ?case by (simp add: a update_fresh [OF fresh])
qed

lemma py_dict_distinct: "distinct (map fst ps) \<Longrightarrow> py_dict ps = ps"
  using foldl_update_distinct [of "[]" ps] by (simp add: py_dict_def)

lemma keys_enumerate:
  "map fst (map (\<lambda>(i, s). (f i, g s)) (enumerate 0 xs)) = map f [0..<length xs]"
proof -
  have "map fst (map (\<lambda>(i, s). (f i, g s)) (enumerate 0 xs)) = map (f \<circ> fst) (enumerate 0 xs)"
    by (simp add: case_prod_beta comp_def)
  also have "\<dots> = map f (map fst (enumerate 0 xs))" by (simp only: map_map)
  also have "\<dots> = map f [0..<length xs]" by (simp only: map_fst_enumerate) simp
  finally show ?thesis .
qed

lemma values_enumerate:
  "map snd (map (\<lambda>(i, s). (f i, g s)) (enumerate 0 xs)) = map g xs"
proof -
  have "map snd (map (\<lambda>(i, s). (f i, g s)) (enumerate 0 xs)) = map (g \<circ> snd) (enumerate 0 xs)"
    by (simp add: case_prod_beta comp_def)
  also have "\<dots> = map g (map snd (enumerate 0 xs))" by (simp only: map_map)
  also have "\<dots> = map g xs" by (simp only: map_snd_enumerate)
  finally show ?thesis .
qed

lemma int_keyed_dict:
  "py_dict (map (\<lambda>(i, s). (IntKey i, s)) (enumerate 0 xs)) = map (\<lambda>(i, s). (IntKey i, s)) (enumerate 0 xs)"
proof (rule py_dict_distinct)
  have "inj IntKey" by (simp add: inj_def)
  then have "distinct (map IntKey [0..<length xs])" by (simp add: distinct_map inj_on_def)
  then show "distinct (map fst (map (\<lambda>(i, s). (IntKey i, s)) (enumerate 0 xs)))"
    by (simp only: keys_enumerate)
qed

lemma digit_val_digit: "d < 10 \<Longrightarrow> digit_val (digit d) = d"
proof -
  assume "d < 10"
  then have "d \<in> {0,1,2,3,4,5,6,7,8,9}" by auto
  then show ?thesis by (auto simp: digit_def digit_val_def)
qed

lemma num_of_str: "num_of (str n) = n"
proof (induction n rule: str.induct)
  case (1 n)
  show ?case
  proof (cases "n < 10")
    case True
    then show ?thesis by (subst str.simps) (simp add: num_of_def digit_val_digit)
  next
    case False
    with 1 have IH: "num_of (str (n div 10)) = n div 10" by simp
    have "n mod 10 < 10" by simp
    then have dv: "digit_val (digit (n mod 10)) = n mod 10" by (rule digit_val_digit)
    from False have "str n = str (n div 10) @ [digit (n mod 10)]" by (subst str.simps) simp
    then have "num_of (str n) = 10 * num_of (str (n div 10)) + digit_val (digit (n mod 10))"
      by (simp add: num_of_def)
    with IH dv show ?thesis by simp
  qed
qed

lemma inj_str: "inj str"
  by (metis injI num_of_str)

section \<open>The example builder\<close>

lemma builder_example_fields [simp]:
  "puzzle (builder_example E p md b i mv) = fen E b"
  "expected_move (builder_example E p md b i mv) = mv"
  "move_index (builder_example E p md b i mv) = Some i"
  "puzzle_id (builder_example E p md b i mv) = PuzzleId p"
  "metadata (builder_example E p md b i mv) = md"
  by (simp_all add: builder_example_def)

lemma builder_example_moves:
  "possible_moves (builder_example E p md b i mv) =
     map (\<lambda>(i, s). (IntKey i, s)) (enumerate 0 (legal_moves_uci E b))"
  by (simp add: builder_example_def int_keyed_dict)

lemma builder_example_keys:
  "map fst (possible_moves (builder_example E p md b i mv)) = map IntKey [0..<length (legal_moves E b)]"
  unfolding builder_example_moves using keys_enumerate [of IntKey "\<lambda>s. s" "legal_moves_uci E b"]
  by (simp add: legal_moves_uci_def)

lemma builder_example_values:
  "map snd (possible_moves (builder_example E p md b i mv)) = legal_moves_uci E b"
  unfolding builder_example_moves using values_enumerate [of IntKey "\<lambda>s. s" "legal_moves_uci E b"]
  by simp

lemma examples_loop_legal:
  "legal_line E b mvs \<Longrightarrow> n = i + length mvs \<Longrightarrow>
   \<exists>exs. examples_loop E p md n b i mvs = Inr exs \<and> length exs = length mvs \<and>
         map move_index exs = map Some [i..<i + length mvs] \<and>
         map expected_move exs = mvs \<and>
         (\<forall>ex\<in>set exs. expected_move ex \<in> snd ` set (possible_moves ex))"
proof (induction E b mvs arbitrary: i rule: legal_line.induct)
  case (1 E b)
  then show ?case by simp
next
  case (2 E b mv)
  have "mv \<in> set (map snd (possible_moves (builder_example E p md b i mv)))"
    using 2 by (simp only: builder_example_values) simp
  then have "mv \<in> snd ` set (possible_moves (builder_example E p md b i mv))" by simp
  with 2 show ?case by (simp add: Let_def)
next
  case (3 E b mv mv' rest)
  from "3.prems" obtain b' where push: "push_uci E b mv = Inr b'"
    and rest: "legal_line E b' (mv' # rest)" and here: "mv \<in> set (legal_moves_uci E b)"
    by (auto split: sum.splits)
  from "3.prems" have n: "n = Suc i + length (mv' # rest)" by simp
  from "3.IH" [OF push rest n] obtain exs where
    H: "examples_loop E p md n b' (Suc i) (mv' # rest) = Inr exs \<and>
        length exs = length (mv' # rest) \<and>
        map move_index exs = map Some [Suc i..<Suc i + length (mv' # rest)] \<and>
        map expected_move exs = mv' # rest \<and>
        (\<forall>ex\<in>set exs. expected_move ex \<in> snd ` set (possible_moves ex))" ..
  from H have loop: "examples_loop E p md n b' (Suc i) (mv' # rest) = Inr exs"
    and len: "length exs = length (mv' # rest)"
    and idx: "map move_index exs = map Some [Suc i..<Suc i + length (mv' # rest)]"
    and exp: "map expected_move exs = mv' # rest"
    and mem: "\<forall>ex\<in>set exs. expected_move ex \<in> snd ` set (possible_moves ex)"
    by blast+
  have "mv \<in> set (map snd (possible_moves (builder_example E p md b i mv)))"
    using here by (simp only: builder_example_values)
  then have mem0: "mv \<in> snd ` set (possible_moves (builder_example E p md b i mv))" by simp
  have cond: "int i < int n - 1" using n by simp
  have res: "examples_loop E p md n b i (mv # mv' # rest) = Inr (builder_example E p md b i mv # exs)"
    using cond push loop by (simp add: Let_def)
  have upt: "[i..<i + length (mv # mv' # rest)] = i # [Suc i..<Suc i + length (mv' # rest)]"
    by (simp add: upt_rec)
  show ?case
    unfolding res using len idx exp mem mem0 upt by simp
qed

text \<open>
  Claim C1. When the start position parses and the \<open>N \<ge> 1\<close> solution moves form a legal
  line from it, \<^verbatim>\<open>_create_dspy_example\<close> returns exactly \<open>N\<close> examples, their
  \<^verbatim>\<open>move_index\<close> fields are \<open>0, \<dots>, N - 1\<close> in order, their expected moves are the
  solution moves, and the expected move of each example is a value of its
  \<^verbatim>\<open>possible_moves\<close>.
\<close>
theorem builder_one_example_per_move:
  assumes "Board E (FEN p) = Inr b" and "str_split (Moves p) = mvs" and "mvs \<noteq> []"
    and "legal_line E b mvs"
  shows "\<exists>exs. create_dspy_example E p cg = Inr (Some exs) \<and> length exs = length mvs \<and>
           map move_index exs = map Some [0..<length mvs] \<and>
           map expected_move exs = mvs \<and>
           (\<forall>ex\<in>set exs. expected_move ex \<in> snd ` set (possible_moves ex))"
proof -
  from examples_loop_legal [OF assms(4), of "length mvs" 0 p "builder_metadata p mvs cg"]
  obtain exs where "examples_loop E p (builder_metadata p mvs cg) (length mvs) b 0 mvs = Inr exs"
    and "length exs = length mvs" and "map move_index exs = map Some [0..<length mvs]"
    and "map expected_move exs = mvs"
    and "\<forall>ex\<in>set exs. expected_move ex \<in> snd ` set (possible_moves ex)"
    by auto
  with assms(1-3) show ?thesis by (simp add: create_dspy_example_def Let_def)
qed

lemma book_row_legal: "legal_line book Initial [''e2e4'', ''e7e5'']"
  by (simp add: book_def legal_moves_uci_def book_push_def)

lemma split_two: "str_split ''e2e4 e7e5'' = [''e2e4'', ''e7e5'']"
  by (simp add: str_split_def isspace_def)

theorem builder_one_example_per_move_witness:
  "(case create_dspy_example book (row_of ''p1'' startpos_fen ''e2e4 e7e5'') None of
      Inr (Some exs) \<Rightarrow> length exs = 2 \<and> map move_index exs = [Some 0, Some 1] \<and>
         map expected_move exs = [''e2e4'', ''e7e5''] \<and>
         list_all (\<lambda>ex. expected_move ex \<in> snd ` set (possible_moves ex)) exs
    | _ \<Rightarrow> False)"
proof -
  have b: "Board book (FEN (row_of ''p1'' startpos_fen ''e2e4 e7e5'')) = Inr Initial"
    by (simp add: book_def row_of_def book_Board_def)
  have s: "str_split (Moves (row_of ''p1'' startpos_fen ''e2e4 e7e5'')) = [''e2e4'', ''e7e5'']"
    by (simp add: row_of_def split_two)
  have ne: "[''e2e4'', ''e7e5''] \<noteq> ([] :: string list)" by simp
  from builder_one_example_per_move [OF b s ne book_row_legal, of None]
  show ?thesis by (auto simp: list_all_iff upt_rec)
qed

lemma examples_loop_replay:
  "examples_loop E p md n b i mvs = Inr exs \<Longrightarrow> n = i + length mvs \<Longrightarrow>
   map expected_move exs = mvs \<and> map puzzle exs = take (length mvs) (replay E b mvs)"
proof (induction mvs arbitrary: b i exs)
  case Nil
  then show ?case by simp
next
  case (Cons mv rest)
  show ?case
  proof (cases "rest = []")
    case True
    with Cons.prems show ?thesis by (auto simp: Let_def)
  next
    case False
    with Cons.prems have cond: "int i < int n - 1" by (cases rest) auto
    from Cons.prems(1) cond obtain b' exs' where push: "push_uci E b mv = Inr b'"
      and loop: "examples_loop E p md n b' (Suc i) rest = Inr exs'"
      and exs: "exs = builder_example E p md b i mv # exs'"
      by (auto simp: Let_def split: sum.splits)
    from Cons.prems(2) have "n = Suc i + length rest" by simp
    from Cons.IH [OF loop this] push exs show ?thesis by simp
  qed
qed

text \<open>
  Claim C2, as the code has it. The examples of a record carry the position strings of a
  replay: the first is \<^verbatim>\<open>board.fen()\<close> of the board parsed from the record's start string
  (the engine's rendering, which need not be the start string itself), and each later one
  is the rendering of the previous board advanced by the previous expected move.
\<close>
theorem builder_positions_replay:
  assumes "create_dspy_example E p cg = Inr (Some exs)"
  shows "\<exists>b0. Board E (FEN p) = Inr b0 \<and> exs \<noteq> [] \<and> puzzle (hd exs) = fen E b0 \<and>
           map expected_move exs = str_split (Moves p) \<and>
           map puzzle exs = take (length exs) (replay E b0 (map expected_move exs))"
proof -
  let ?mvs = "str_split (Moves p)"
  from assms have ne: "?mvs \<noteq> []"
    by (auto simp: create_dspy_example_def Let_def split: if_splits)
  with assms obtain b0 where board: "Board E (FEN p) = Inr b0"
    and loop: "examples_loop E p (builder_metadata p ?mvs cg) (length ?mvs) b0 0 ?mvs = Inr exs"
    by (auto simp: create_dspy_example_def Let_def split: sum.splits)
  from examples_loop_replay [OF loop] have em: "map expected_move exs = ?mvs"
    and pz: "map puzzle exs = take (length ?mvs) (replay E b0 ?mvs)" by simp_all
  from em have len: "length exs = length ?mvs" by (metis length_map)
  with ne have exs_ne: "exs \<noteq> []" by auto
  have "hd (replay E b0 ?mvs) = fen E b0" by (cases ?mvs) simp_all
  moreover have "hd (map puzzle exs) = puzzle (hd exs)" using exs_ne by (simp add: hd_map)
  moreover have "hd (take (length ?mvs) (replay E b0 ?mvs)) = hd (replay E b0 ?mvs)"
    using ne by (cases ?mvs) simp_all
  ultimately have "puzzle (hd exs) = fen E b0" using pz by simp
  with board exs_ne em pz len show ?thesis by simp
qed

lemma split_one: "str_split ''e7e5'' = [''e7e5'']"
  by (simp add: str_split_def isspace_def)

lemma book_ep_result:
  "map_sum id (map_option (map puzzle)) (create_dspy_example book (row_of ''p2'' e4_fen_ep ''e7e5'') None)
     = Inr (Some [e4_fen])"
  by (simp add: create_dspy_example_def row_of_def split_one book_def book_Board_def Let_def
      e4_fen_def e4_fen_ep_def startpos_fen_def)

text \<open>
  Claim C2 as stated fails at ply 0: for the start string of the position after 1. e4 that
  names the en-passant square \<open>e3\<close>, the example carries the engine's rendering, which
  writes \<open>-\<close> in its place.
\<close>
theorem builder_start_position_counterexample:
  "map_sum id (map_option (map puzzle)) (create_dspy_example book (row_of ''p2'' e4_fen_ep ''e7e5'') None)
     = Inr (Some [e4_fen]) \<and> e4_fen \<noteq> FEN (row_of ''p2'' e4_fen_ep ''e7e5'')"
  by (simp add: book_ep_result) (simp add: row_of_def e4_fen_def e4_fen_ep_def)

theorem builder_positions_replay_witness:
  "(case create_dspy_example book (row_of ''p1'' startpos_fen ''e2e4 e7e5'') None of
      Inr (Some exs) \<Rightarrow> map puzzle exs = [startpos_fen, e4_fen] \<and>
         map puzzle exs = take 2 (replay book Initial [''e2e4'', ''e7e5''])
    | _ \<Rightarrow> False)"
proof (cases "create_dspy_example book (row_of ''p1'' startpos_fen ''e2e4 e7e5'') None")
  case (Inl e)
  then show ?thesis
    by (simp add: create_dspy_example_def row_of_def split_two book_def book_Board_def Let_def
        book_push_def)
next
  case (Inr r)
  show ?thesis
  proof (cases r)
    case None
    with Inr show ?thesis
      by (simp add: create_dspy_example_def row_of_def split_two book_def book_Board_def Let_def
          book_push_def)
  next
    case (Some exs)
    with Inr have res: "create_dspy_example book (row_of ''p1'' startpos_fen ''e2e4 e7e5'') None = Inr (Some exs)"
      by simp
    from builder_positions_replay [OF res] obtain b0 where
      b0: "Board book (FEN (row_of ''p1'' startpos_fen ''e2e4 e7e5'')) = Inr b0"
      and em: "map expected_move exs = str_split (Moves (row_of ''p1'' startpos_fen ''e2e4 e7e5''))"
      and pz: "map puzzle exs = take (length exs) (replay book b0 (map expected_move exs))"
      by blast
    from b0 have b0I: "b0 = Initial" by (simp add: book_def row_of_def book_Board_def)
    from em have em': "map expected_move exs = [''e2e4'', ''e7e5'']" by (simp add: row_of_def split_two)
    then have "length exs = 2" by (metis length_map length_Cons list.size(3) numeral_2_eq_2)
    with pz em' b0I have "map puzzle exs = take 2 (replay book Initial [''e2e4'', ''e7e5''])" by simp
    moreover have "take 2 (replay book Initial [''e2e4'', ''e7e5'']) = [startpos_fen, e4_fen]"
      by (simp add: book_def book_push_def)
    ultimately show ?thesis using res by simp
  qed
qed

lemma split_from_empty: "split_from w s = [] \<longleftrightarrow> w = [] \<and> list_all isspace s"
  by (induction w s rule: split_from.induct) auto

lemma str_split_empty: "str_split s = [] \<longleftrightarrow> list_all isspace s"
  by (simp add: str_split_def split_from_empty)

text \<open>
  Claim C9. A record whose move list is empty makes \<^verbatim>\<open>_create_dspy_example\<close> return
  \<^verbatim>\<open>None\<close>; it raises nothing, whatever the engine and the start string.
\<close>
theorem builder_no_moves_returns_none:
  assumes "str_split (Moves p) = []"
  shows "create_dspy_example E p cg = Inr None"
  using assms by (simp add: create_dspy_example_def)

theorem builder_no_moves_returns_none_witness:
  "str_split (Moves (row_of ''p3'' ''not a position'' ''  '')) = [] \<and>
   create_dspy_example book (row_of ''p3'' ''not a position'' ''  '') (Some ''control'') = Inr None"
proof -
  have h: "str_split (Moves (row_of ''p3'' ''not a position'' ''  '')) = []"
    by (simp add: row_of_def str_split_def isspace_def)
  from builder_no_moves_returns_none [OF h] h show ?thesis by simp
qed

section \<open>The dataset assembler and positions without legal moves\<close>

lemma assemble_append:
  "create_examples_from_df E before cgs = Inr built \<Longrightarrow>
   create_examples_from_df E (before @ rows) cgs =
     (case create_examples_from_df E rows cgs of Inl e \<Rightarrow> Inl e | Inr later \<Rightarrow> Inr (built @ later))"
proof (induction before arbitrary: built)
  case Nil
  then show ?case by (simp split: sum.splits)
next
  case (Cons a before)
  obtain idx p where a: "a = (idx, p)" by (cases a)
  from Cons.prems obtain cg r built' where
    cg: "(case cgs of None \<Rightarrow> Inr None | Some labels \<Rightarrow> iloc labels idx) = Inr cg"
    and r: "create_dspy_example E p cg = Inr r"
    and rest: "create_examples_from_df E before cgs = Inr built'"
    and built: "built = (case r of None \<Rightarrow> [] | Some exs \<Rightarrow> if exs \<noteq> [] then exs else []) @ built'"
    unfolding a by (simp split: sum.splits)
  from Cons.IH [OF rest] cg r built show ?case
    unfolding a by (simp split: sum.splits)
qed

lemma builder_illegal_move_raises:
  assumes "Board E (FEN p) = Inr b" and "str_split (Moves p) = mv # mv' # rest"
    and "push_uci E b mv = Inl e"
  shows "create_dspy_example E p cg = Inl e"
  using assms by (simp add: create_dspy_example_def Let_def)

text \<open>
  Claim C3 says that an illegal solution move fails its own record only. In the code the
  exception of \<^verbatim>\<open>push_uci\<close> leaves \<^verbatim>\<open>_create_examples_from_df\<close>: whatever records come
  before (built without error) and after, the whole call raises and returns no example.
\<close>
theorem assembler_aborts_on_illegal_move:
  assumes "create_examples_from_df E before cgs = Inr built"
    and "(case cgs of None \<Rightarrow> Inr None | Some labels \<Rightarrow> iloc labels idx) = Inr cg"
    and "Board E (FEN p) = Inr b"
    and "str_split (Moves p) = mv # mv' # rest"
    and "push_uci E b mv = Inl e"
  shows "create_examples_from_df E (before @ (idx, p) # after) cgs = Inl e"
proof -
  have "create_dspy_example E p cg = Inl e"
    using assms(3-5) by (rule builder_illegal_move_raises)
  with assms(2) have "create_examples_from_df E ((idx, p) # after) cgs = Inl e" by simp
  with assemble_append [OF assms(1), of "(idx, p) # after"] show ?thesis by simp
qed

lemma split_bad: "str_split ''e2e5 e7e5'' = [''e2e5'', ''e7e5'']"
  by (simp add: str_split_def isspace_def)

lemma book_good_row:
  "map_sum id (map expected_move) (create_examples_from_df book [(0, row_of ''p1'' startpos_fen ''e2e4 e7e5'')] None)
     = Inr [''e2e4'', ''e7e5'']"
  by (simp add: create_dspy_example_def row_of_def split_two book_def book_Board_def Let_def
      book_push_def)

theorem assembler_aborts_on_illegal_move_witness:
  "map_sum id (map expected_move)
     (create_examples_from_df book [(0, row_of ''p1'' startpos_fen ''e2e4 e7e5'')] None)
     = Inr [''e2e4'', ''e7e5''] \<and>
   create_examples_from_df book
     ([(0, row_of ''p1'' startpos_fen ''e2e4 e7e5'')] @ (1, row_of ''p4'' startpos_fen ''e2e5 e7e5'')
        # [(2, row_of ''p1'' startpos_fen ''e2e4 e7e5'')]) None
     = Inl (ValueError ''illegal uci'')"
proof -
  obtain built where h1: "create_examples_from_df book [(0, row_of ''p1'' startpos_fen ''e2e4 e7e5'')] None = Inr built"
    using book_good_row by (cases "create_examples_from_df book [(0, row_of ''p1'' startpos_fen ''e2e4 e7e5'')] None") auto
  have h2: "(case None :: string option list option of None \<Rightarrow> Inr None | Some labels \<Rightarrow> iloc labels 1)
              = (Inr None :: pyerror + string option)" by simp
  have h3: "Board book (FEN (row_of ''p4'' startpos_fen ''e2e5 e7e5'')) = Inr Initial"
    by (simp add: book_def row_of_def book_Board_def)
  have h4: "str_split (Moves (row_of ''p4'' startpos_fen ''e2e5 e7e5'')) = ''e2e5'' # ''e7e5'' # []"
    by (simp add: row_of_def split_bad)
  have h5: "push_uci book Initial ''e2e5'' = Inl (ValueError ''illegal uci'')"
    by (simp add: book_def book_push_def)
  from assembler_aborts_on_illegal_move [OF h1 h2 h3 h4 h5] book_good_row show ?thesis by simp
qed

text \<open>
  Claim C6 says that a position without legal moves makes the builder skip the record. In
  the code a record whose only move is to be played from such a position contributes an
  example, with an empty \<^verbatim>\<open>possible_moves\<close>. (The single-move sampler does skip such a row:
  \<open>sampler_skips_position_without_moves\<close> below.)
\<close>
theorem builder_keeps_position_without_moves:
  assumes "Board E (FEN p) = Inr b" and "legal_moves E b = []" and "str_split (Moves p) = [mv]"
  shows "\<exists>ex. create_examples_from_df E [(idx, p)] None = Inr [ex] \<and> possible_moves ex = [] \<and>
           puzzle ex = fen E b \<and> expected_move ex = mv"
  using assms
  by (simp add: create_dspy_example_def Let_def builder_example_moves legal_moves_uci_def enumerate_simps)

lemma split_king: "str_split ''e1f2'' = [''e1f2'']"
  by (simp add: str_split_def isspace_def)

theorem builder_keeps_position_without_moves_witness:
  "map_sum id (map (\<lambda>ex. (puzzle ex, possible_moves ex, expected_move ex)))
     (create_examples_from_df book [(0, row_of ''p5'' mate_fen ''e1f2'')] None)
     = Inr [(mate_fen, [], ''e1f2'')]"
proof -
  have h1: "Board book (FEN (row_of ''p5'' mate_fen ''e1f2'')) = Inr Fools_mate"
    by (simp add: book_def row_of_def book_Board_def mate_fen_def startpos_fen_def e4_fen_def e4_fen_ep_def)
  have h2: "legal_moves book Fools_mate = []" by (simp add: book_def)
  have h3: "str_split (Moves (row_of ''p5'' mate_fen ''e1f2'')) = [''e1f2'']"
    by (simp add: row_of_def split_king)
  from builder_keeps_position_without_moves [OF h1 h2 h3, of 0]
  show ?thesis by (auto simp: book_def)
qed

lemma sampler_skips_position_without_moves:
  assumes "Board E (col_puzzle_fen row) = Inr b" and "legal_moves E b = []"
  shows "sample_rows_loop E ((idx, row) # rest) = sample_rows_loop E rest"
  using assms by (simp add: py_dict_def)

lemma sampler_skips_unparsable_position:
  assumes "Board E (col_puzzle_fen row) = Inl e"
  shows "sample_rows_loop E ((idx, row) # rest) = sample_rows_loop E rest"
  using assms by simp

section \<open>Keys of the possible moves\<close>

lemma str_keyed_dict:
  "py_dict (map (\<lambda>(i, mv). (StrKey (str i), f mv)) (enumerate 0 xs))
     = map (\<lambda>(i, mv). (StrKey (str i), f mv)) (enumerate 0 xs)"
proof (rule py_dict_distinct)
  have "inj (\<lambda>i. StrKey (str i))" using inj_str by (auto simp: inj_def)
  then have "distinct (map (\<lambda>i. StrKey (str i)) [0..<length xs])"
    by (simp add: distinct_map inj_on_def)
  then show "distinct (map fst (map (\<lambda>(i, mv). (StrKey (str i), f mv)) (enumerate 0 xs)))"
    by (simp only: keys_enumerate)
qed

lemma sample_rows_loop_keys:
  "ex \<in> set (sample_rows_loop E rows) \<Longrightarrow>
   \<exists>b. Board E (puzzle ex) = Inr b \<and> possible_moves ex \<noteq> [] \<and>
       map fst (possible_moves ex) = map (\<lambda>i. StrKey (str i)) [0..<length (legal_moves E b)] \<and>
       map snd (possible_moves ex) = legal_moves_uci E b"
proof (induction rows)
  case Nil
  then show ?case by simp
next
  case (Cons a rows)
  obtain idx row where a: "a = (idx, row)" by (cases a)
  show ?case
  proof (cases "Board E (col_puzzle_fen row)")
    case (Inl e)
    with Cons show ?thesis by (simp add: a)
  next
    case (Inr b)
    let ?legal = "map (\<lambda>(i, mv). (StrKey (str i), uci E mv)) (enumerate 0 (legal_moves E b))"
    have step: "sample_rows_loop E ((idx, row) # rows) =
        (if ?legal = [] then sample_rows_loop E rows
         else sampler_example row ?legal # sample_rows_loop E rows)"
      by (simp only: sample_rows_loop.simps Inr sum.case str_keyed_dict Let_def)
    show ?thesis
    proof (cases "?legal = []")
      case True
      have "sample_rows_loop E (a # rows) = sample_rows_loop E rows"
        unfolding a step using True by simp
      with Cons show ?thesis by simp
    next
      case False
      with Cons.prems step have "ex \<in> set (sampler_example row ?legal # sample_rows_loop E rows)"
        by (simp only: a if_False)
      then have "ex = sampler_example row ?legal \<or> ex \<in> set (sample_rows_loop E rows)"
        by simp
      then show ?thesis
      proof
        assume ex: "ex = sampler_example row ?legal"
        have "map fst ?legal = map (\<lambda>i. StrKey (str i)) [0..<length (legal_moves E b)]"
          by (rule keys_enumerate)
        moreover have "map snd ?legal = legal_moves_uci E b"
          unfolding legal_moves_uci_def by (rule values_enumerate)
        ultimately show ?thesis using Inr False by (auto simp: ex sampler_example_def)
      next
        assume "ex \<in> set (sample_rows_loop E rows)"
        then show ?thesis by (rule Cons.IH)
      qed
    qed
  qed
qed

lemma examples_loop_keys:
  "examples_loop E p md n b i mvs = Inr exs \<Longrightarrow> ex \<in> set exs \<Longrightarrow>
   \<exists>b'. puzzle ex = fen E b' \<and>
        map fst (possible_moves ex) = map IntKey [0..<length (legal_moves E b')] \<and>
        map snd (possible_moves ex) = legal_moves_uci E b'"
proof (induction mvs arbitrary: b i exs)
  case Nil
  then show ?case by simp
next
  case (Cons mv rest)
  from Cons.prems(1) obtain b1 exs' where
    loop: "examples_loop E p md n b1 (Suc i) rest = Inr exs'"
    and exs: "exs = builder_example E p md b i mv # exs'"
    by (auto simp: Let_def split: sum.splits if_splits)
  from Cons.prems(2) exs have "ex = builder_example E p md b i mv \<or> ex \<in> set exs'" by simp
  then show ?case
  proof
    assume "ex = builder_example E p md b i mv"
    then show ?thesis using builder_example_keys builder_example_values by fastforce
  next
    assume "ex \<in> set exs'"
    with Cons.IH [OF loop] show ?thesis by blast
  qed
qed

text \<open>
  Claim C10. Every example of \<^verbatim>\<open>create_sample\<close> has a non-empty \<^verbatim>\<open>possible_moves\<close> whose
  keys are the strings \<open>str 0, \<dots>, str (M - 1)\<close> for the \<open>M\<close> legal moves of its position;
  every example of \<^verbatim>\<open>_create_dspy_example\<close> has the integer keys \<open>0, \<dots>, M - 1\<close> (and the
  dictionary may be empty, as the instance after the theorem shows).
\<close>
theorem possible_moves_key_types:
  fixes df :: "'r single_row_scheme frame"
  assumes "create_sample R E self df sample_size g = (Inr sampled, g')"
    and "create_dspy_example E p cg = Inr (Some built)"
  shows "(\<forall>ex\<in>set sampled. \<exists>b. Board E (puzzle ex) = Inr b \<and> possible_moves ex \<noteq> [] \<and>
            map fst (possible_moves ex) = map (\<lambda>i. StrKey (str i)) [0..<length (legal_moves E b)] \<and>
            map snd (possible_moves ex) = legal_moves_uci E b) \<and>
         (\<forall>ex\<in>set built. \<exists>b. puzzle ex = fen E b \<and>
            map fst (possible_moves ex) = map IntKey [0..<length (legal_moves E b)] \<and>
            map snd (possible_moves ex) = legal_moves_uci E b)"
proof
  obtain r g2 where sd: "sampled_df R self df sample_size g = (r, g2)"
    by (cases "sampled_df R self df sample_size g")
  with assms(1) obtain rows :: "'r single_row_scheme frame"
    where rows: "sampled = sample_rows_loop E rows"
    by (cases r) (auto simp: create_sample_def)
  show "\<forall>ex\<in>set sampled. \<exists>b. Board E (puzzle ex) = Inr b \<and> possible_moves ex \<noteq> [] \<and>
            map fst (possible_moves ex) = map (\<lambda>i. StrKey (str i)) [0..<length (legal_moves E b)] \<and>
            map snd (possible_moves ex) = legal_moves_uci E b"
  proof
    fix ex assume "ex \<in> set sampled"
    then have "ex \<in> set (sample_rows_loop E rows)" by (simp only: rows)
    then show "\<exists>b. Board E (puzzle ex) = Inr b \<and> possible_moves ex \<noteq> [] \<and>
            map fst (possible_moves ex) = map (\<lambda>i. StrKey (str i)) [0..<length (legal_moves E b)] \<and>
            map snd (possible_moves ex) = legal_moves_uci E b"
      by (rule sample_rows_loop_keys)
  qed
next
  from assms(2) have "\<exists>b0 md mvs. examples_loop E p md (length mvs) b0 0 mvs = Inr built"
    by (auto simp: create_dspy_example_def Let_def split: sum.splits if_splits)
  then obtain b0 md mvs where loop: "examples_loop E p md (length mvs) b0 0 mvs = Inr built"
    by blast
  show "\<forall>ex\<in>set built. \<exists>b. puzzle ex = fen E b \<and>
            map fst (possible_moves ex) = map IntKey [0..<length (legal_moves E b)] \<and>
            map snd (possible_moves ex) = legal_moves_uci E b"
  proof
    fix ex assume "ex \<in> set built"
    with loop show "\<exists>b. puzzle ex = fen E b \<and>
            map fst (possible_moves ex) = map IntKey [0..<length (legal_moves E b)] \<and>
            map snd (possible_moves ex) = legal_moves_uci E b"
      by (rule examples_loop_keys)
  qed
qed

lemma computed_sample:
  "(case fst (create_sample counter_rng book \<lparr>random_state = 1\<rparr> single_rows 10 (0::nat)) of
      Inr sampled \<Rightarrow> map (\<lambda>ex. (puzzle_id ex, map fst (possible_moves ex))) sampled
                        = [(''a'', map (\<lambda>i. StrKey (str i)) [0..<20])]
    | Inl e \<Rightarrow> False)"
  by code_simp

lemma computed_built:
  "(case create_dspy_example book (row_of ''p5'' mate_fen ''e1f2'') None of
      Inr (Some built) \<Rightarrow> map (\<lambda>ex. (puzzle_id ex, map fst (possible_moves ex))) built = [(''p5'', [])]
    | _ \<Rightarrow> False)"
  by code_simp

theorem possible_moves_key_types_witness:
  "(case (fst (create_sample counter_rng book \<lparr>random_state = 1\<rparr> single_rows 10 (0::nat)),
          create_dspy_example book (row_of ''p5'' mate_fen ''e1f2'') None) of
      (Inr sampled, Inr (Some built)) \<Rightarrow>
         map (\<lambda>ex. (puzzle_id ex, map fst (possible_moves ex))) sampled
           = [(''a'', map (\<lambda>i. StrKey (str i)) [0..<20])] \<and>
         list_all (\<lambda>ex. possible_moves ex \<noteq> []) sampled \<and>
         map (\<lambda>ex. (puzzle_id ex, map fst (possible_moves ex))) built = [(''p5'', [])]
    | _ \<Rightarrow> False)"
proof -
  obtain r g' where cs: "create_sample counter_rng book \<lparr>random_state = 1\<rparr> single_rows 10 (0::nat) = (r, g')"
    by (cases "create_sample counter_rng book \<lparr>random_state = 1\<rparr> single_rows 10 (0::nat)")
  with computed_sample obtain sampled where r: "r = Inr sampled"
    and keys: "map (\<lambda>ex. (puzzle_id ex, map fst (possible_moves ex))) sampled
                 = [(''a'', map (\<lambda>i. StrKey (str i)) [0..<20])]"
    by (cases r) auto
  from computed_built obtain built where
    b: "create_dspy_example book (row_of ''p5'' mate_fen ''e1f2'') None = Inr (Some built)"
    and bkeys: "map (\<lambda>ex. (puzzle_id ex, map fst (possible_moves ex))) built = [(''p5'', [])]"
    by (auto split: sum.splits option.splits)
  from cs r have h1: "create_sample counter_rng book \<lparr>random_state = 1\<rparr> single_rows 10 (0::nat) = (Inr sampled, g')"
    by simp
  from possible_moves_key_types [OF h1 b]
  have "\<forall>ex\<in>set sampled. possible_moves ex \<noteq> []" by blast
  then have "list_all (\<lambda>ex. possible_moves ex \<noteq> []) sampled" by (simp add: list_all_iff)
  with keys bkeys show ?thesis by (simp add: cs r b)
qed

section \<open>The random selection\<close>

lemma df_sample_seeded:
  "fst (df_sample R df n (Some seed) g) = fst (df_sample R df n (Some seed) h) \<and>
   snd (df_sample R df n (Some seed) g) = g"
  by (cases "seed_rng R seed") (simp_all add: df_sample_def)

text \<open>
  Claim C5. Two samplers made with the same seed select the same rows, in the same order,
  from the same population with the same sample size, and build the same examples,
  whatever the state of the global generator at either call.
\<close>
theorem create_sample_deterministic:
  assumes "BaseSampler_init R seed g0 = Inr (self1, g1)"
    and "BaseSampler_init R seed h0 = Inr (self2, h1)"
  shows "fst (sampled_df R self1 df n g) = fst (sampled_df R self2 df n h) \<and>
         fst (create_sample R E self1 df n g) = fst (create_sample R E self2 df n h)"
proof -
  from assms have s: "random_state self1 = seed" "random_state self2 = seed"
    by (auto simp: BaseSampler_init_def split: sum.splits)
  have sel: "fst (sampled_df R self1 df n g) = fst (sampled_df R self2 df n h)"
    unfolding sampled_df_def s using df_sample_seeded [of R df _ seed g h] by simp
  obtain r1 g' where a: "sampled_df R self1 df n g = (r1, g')" by (cases "sampled_df R self1 df n g")
  obtain r2 h' where b: "sampled_df R self2 df n h = (r2, h')" by (cases "sampled_df R self2 df n h")
  from sel a b have "r1 = r2" by simp
  with a b have "fst (create_sample R E self1 df n g) = fst (create_sample R E self2 df n h)"
    by (cases r2) (simp_all add: create_sample_def)
  with sel show ?thesis by simp
qed

theorem create_sample_deterministic_witness:
  "BaseSampler_init counter_rng 1 (0::nat) = Inr (\<lparr>random_state = 1\<rparr>, 1) \<and>
   BaseSampler_init counter_rng 1 (7::nat) = Inr (\<lparr>random_state = 1\<rparr>, 1) \<and>
   fst (sampled_df counter_rng \<lparr>random_state = 1\<rparr> single_rows 2 (5::nat))
     = fst (sampled_df counter_rng \<lparr>random_state = 1\<rparr> single_rows 2 (9::nat)) \<and>
   fst (create_sample counter_rng book \<lparr>random_state = 1\<rparr> single_rows 2 (5::nat))
     = fst (create_sample counter_rng book \<lparr>random_state = 1\<rparr> single_rows 2 (9::nat)) \<and>
   map_sum id (map fst) (fst (sampled_df counter_rng \<lparr>random_state = 1\<rparr> single_rows 2 (5::nat)))
     = Inr [1, 2]"
proof -
  have h1: "BaseSampler_init counter_rng 1 (0::nat) = Inr (\<lparr>random_state = 1\<rparr>, 1)"
    by (simp add: BaseSampler_init_def counter_rng_def)
  have h2: "BaseSampler_init counter_rng 1 (7::nat) = Inr (\<lparr>random_state = 1\<rparr>, 1)"
    by (simp add: BaseSampler_init_def counter_rng_def)
  have c: "map_sum id (map fst) (fst (sampled_df counter_rng \<lparr>random_state = 1\<rparr> single_rows 2 (5::nat)))
     = Inr [1, 2]"
    by code_simp
  from create_sample_deterministic [OF h1 h2, of single_rows 2 5 9 book] h1 h2 c
  show ?thesis by simp
qed

lemma mset_rotate1_any: "mset (rotate1 xs) = mset xs"
  by (cases xs) simp_all

lemma take_rows_permutation:
  assumes "mset locs = mset [0..<length df]"
  shows "take_rows df locs = Inr (map (\<lambda>i. df ! i) locs) \<and> mset (map (\<lambda>i. df ! i) locs) = mset df"
proof -
  from assms have "set locs = set [0..<length df]" by (rule mset_eq_setD)
  then have "list_all (\<lambda>i. i < length df) locs" by (auto simp: list_all_iff)
  then have t: "take_rows df locs = Inr (map (\<lambda>i. df ! i) locs)" by (simp add: take_rows_def)
  have "mset (map (\<lambda>i. df ! i) locs) = image_mset (\<lambda>i. df ! i) (mset locs)" by simp
  also have "\<dots> = image_mset (\<lambda>i. df ! i) (mset [0..<length df])" by (simp only: assms)
  also have "\<dots> = mset (map (\<lambda>i. df ! i) [0..<length df])" by simp
  also have "\<dots> = mset df" by (simp only: map_nth)
  finally show ?thesis using t by simp
qed

text \<open>
  Claim C8. With a valid seed and a generator whose \<open>permutation\<close> is a permutation, a
  requested size above the population size is no error: the selection has exactly as many
  rows as the population, taken at pairwise distinct row positions, each row of the
  population once.
\<close>
theorem oversized_sample_is_whole_population:
  fixes df :: "'r single_row_scheme frame"
  assumes "seed_rng R (random_state self) = Inr st"
    and "mset (fst (permutation R st (length df))) = mset [0..<length df]"
    and "int (length df) < sample_size"
  shows "\<exists>locs rows. sampled_df R self df sample_size g = (Inr rows, g) \<and>
           rows = map (\<lambda>i. df ! i) locs \<and> distinct locs \<and> set locs = {0..<length df} \<and>
           length rows = length df \<and> mset rows = mset df \<and>
           create_sample R E self df sample_size g = (Inr (sample_rows_loop E rows), g)"
proof -
  let ?perm = "fst (permutation R st (length df))"
  from assms(2) have len: "length ?perm = length df" by (metis size_mset length_upt diff_zero)
  from assms(3) have n: "min sample_size (int (length df)) = int (length df)" by simp
  from take_rows_permutation [OF assms(2)]
  have t: "take_rows df ?perm = Inr (map (\<lambda>i. df ! i) ?perm)"
    and m: "mset (map (\<lambda>i. df ! i) ?perm) = mset df" by simp_all
  have sd: "sampled_df R self df sample_size g = (Inr (map (\<lambda>i. df ! i) ?perm), g)"
    unfolding sampled_df_def n using assms(1) t len by (simp add: df_sample_def)
  have d: "distinct ?perm" using assms(2) by (metis distinct_upt mset_eq_imp_distinct_iff)
  have s: "set ?perm = {0..<length df}" using assms(2) by (metis mset_eq_setD set_upt)
  have cs: "create_sample R E self df sample_size g
              = (Inr (sample_rows_loop E (map (\<lambda>i. df ! i) ?perm)), g)"
    by (simp add: create_sample_def sd)
  from sd d s m len cs show ?thesis by auto
qed

theorem oversized_sample_is_whole_population_witness:
  "seed_rng counter_rng (random_state \<lparr>random_state = 1\<rparr>) = Inr (1::nat) \<and>
   mset (fst (permutation counter_rng (1::nat) (length single_rows))) = mset [0..<length single_rows] \<and>
   int (length single_rows) < 103 \<and>
   map_sum id (map fst) (fst (sampled_df counter_rng \<lparr>random_state = 1\<rparr> single_rows 103 (0::nat)))
     = Inr [1, 2, 0] \<and>
   map_sum id length (fst (create_sample counter_rng book \<lparr>random_state = 1\<rparr> single_rows 103 (0::nat)))
     = Inr 1"
proof -
  have h1: "seed_rng counter_rng (random_state \<lparr>random_state = 1\<rparr>) = Inr (1::nat)"
    by (simp add: counter_rng_def)
  have h2: "mset (fst (permutation counter_rng (1::nat) (length single_rows))) = mset [0..<length single_rows]"
    by (simp add: counter_rng_def mset_rotate1_any)
  have h3: "int (length single_rows) < 103" by (simp add: single_rows_def)
  have c1: "map_sum id (map fst) (fst (sampled_df counter_rng \<lparr>random_state = 1\<rparr> single_rows 103 (0::nat)))
     = Inr [1, 2, 0]" by code_simp
  have c2: "map_sum id length (fst (create_sample counter_rng book \<lparr>random_state = 1\<rparr> single_rows 103 (0::nat)))
     = Inr 1" by code_simp
  from oversized_sample_is_whole_population [OF h1 h2 h3, of 0 book] h1 h2 h3 c1 c2
  show ?thesis by simp
qed

section \<open>The distribution analyzer\<close>

lemma getitem_DataFrame:
  "getitem (DataFrame data) k =
     (if k \<in> set (concat (map (map fst) data))
      then Inr (map (\<lambda>d. case map_of d k of Some v \<Rightarrow> v | None \<Rightarrow> NaN) data)
      else Inl (KeyError k))"
  by (simp add: getitem_def DataFrame_def map_of_map_restrict restrict_map_def)

text \<open>
  Claim C4, as the code has it. For a non-empty sample both analyzers return a report with
  exactly two entries, for rating and for popularity, each pairing the summary of the
  population column with the summary of the sample's metadata values. There is no entry
  for the rating deviation.
\<close>
theorem analyzer_reports_rating_and_popularity:
  assumes "sampled_examples \<noteq> []"
  shows "analyze_distribution D pop sampled_examples =
           Inr [(''rating_stats'',
                 \<lparr> population = D (map (\<lambda>(idx, p). Num (Rating p)) pop),
                   sample = D (map (\<lambda>ex. Num (rating (metadata ex))) sampled_examples) \<rparr>),
                (''popularity_stats'',
                 \<lparr> population = D (map (\<lambda>(idx, p). Num (Popularity p)) pop),
                   sample = D (map (\<lambda>ex. Num (popularity (metadata ex))) sampled_examples) \<rparr>)] \<and>
         analyze_sample_distribution D pop sampled_examples = analyze_distribution D pop sampled_examples"
proof -
  from assms obtain ex rest where s: "sampled_examples = ex # rest" by (cases sampled_examples) auto
  show ?thesis
    unfolding analyze_distribution_def analyze_sample_distribution_def Let_def getitem_DataFrame s
    by (simp add: comp_def)
qed

theorem analyzer_reports_rating_and_popularity_witness:
  "book_examples \<noteq> [] \<and>
   analyze_distribution (\<lambda>col. col) book_population book_examples =
     Inr [(''rating_stats'', \<lparr> population = [Num 1500, Num 1500], sample = [Num 1500, Num 1500] \<rparr>),
          (''popularity_stats'', \<lparr> population = [Num 90, Num 90], sample = [Num 90, Num 90] \<rparr>)] \<and>
   analyze_sample_distribution (\<lambda>col. col) book_population book_examples =
     analyze_distribution (\<lambda>col. col) book_population book_examples"
proof -
  have h: "book_examples \<noteq> []" by code_simp
  have c: "map (\<lambda>ex. (rating (metadata ex), popularity (metadata ex))) book_examples = [(1500, 90), (1500, 90)]"
    by code_simp
  then have r: "map (\<lambda>ex. Num (rating (metadata ex))) book_examples = [Num 1500, Num 1500]"
    and p: "map (\<lambda>ex. Num (popularity (metadata ex))) book_examples = [Num 90, Num 90]"
    by (auto simp: map_eq_Cons_conv)
  from analyzer_reports_rating_and_popularity [OF h, of "\<lambda>col. col" book_population] h r p
  show ?thesis by (simp add: book_population_def row_of_def)
qed

text \<open>
  Claim C4 as stated fails for the rating deviation: no entry of the report pairs the
  rating deviations of the population with those of the sample.
\<close>
theorem analyzer_rating_deviation_counterexample:
  "\<not> (case analyze_distribution (\<lambda>col. col) book_population book_examples of
        Inr report \<Rightarrow>
          pairs_summaries report (map (\<lambda>(idx, p). Num (RatingDeviation p)) book_population)
                                 (map (\<lambda>ex. Num (rating_deviation (metadata ex))) book_examples)
      | Inl e \<Rightarrow> False)"
  by code_simp

text \<open>
  Claim C7 says that an empty sample is tolerated. In the code the table made from the
  empty list has no column, and reading its \<^verbatim>\<open>rating\<close> column raises \<^verbatim>\<open>KeyError\<close>, in both
  analyzers and for every population.
\<close>
theorem analyzer_empty_sample_raises:
  "analyze_distribution D pop [] = Inl (KeyError ''rating'') \<and>
   analyze_sample_distribution D pop [] = Inl (KeyError ''rating'')"
  by (simp add: analyze_distribution_def analyze_sample_distribution_def getitem_DataFrame)

end
